theory Spec2Isabelle
  imports Main "HOL-Library.Sublist"
begin

section \<open>Strings of the source language\<close>

text \<open>
  A Python \<open>str\<close> is modelled as a \<open>string\<close>, one \<open>char\<close> per character, for text in
  the ASCII range. The character classes and the case mappings below are those of
  Python on that range: \<open>str.isspace\<close> (which is also \<open>\s\<close> of the \<open>re\<close> module),
  \<open>\w\<close>, \<open>str.upper\<close> and \<open>str.lower\<close>. A character above the ASCII range is left alone by
  the case mappings here and belongs to neither class.
\<close>

definition isspace :: "char \<Rightarrow> bool" where
  "isspace c = (let n = (of_char c :: nat) in (9 \<le> n \<and> n \<le> 13) \<or> (28 \<le> n \<and> n \<le> 32))"

definition is_word_char :: "char \<Rightarrow> bool" where
  "is_word_char c = (let n = (of_char c :: nat) in
     (48 \<le> n \<and> n \<le> 57) \<or> (65 \<le> n \<and> n \<le> 90) \<or> (97 \<le> n \<and> n \<le> 122) \<or> n = 95)"

definition upper_char :: "char \<Rightarrow> char" where
  "upper_char c = (let n = (of_char c :: nat) in if 97 \<le> n \<and> n \<le> 122 then char_of (n - 32) else c)"

definition lower_char :: "char \<Rightarrow> char" where
  "lower_char c = (let n = (of_char c :: nat) in if 65 \<le> n \<and> n \<le> 90 then char_of (n + 32) else c)"

definition str_upper :: "string \<Rightarrow> string" where
  "str_upper s = map upper_char s"

definition str_lower :: "string \<Rightarrow> string" where
  "str_lower s = map lower_char s"

text \<open>\<open>s.strip()\<close>: leading and trailing whitespace removed.\<close>

definition str_strip :: "string \<Rightarrow> string" where
  "str_strip s = rev (dropWhile isspace (rev (dropWhile isspace s)))"

text \<open>\<open>s.rstrip(chars)\<close>: the longest suffix made of characters of \<open>chars\<close> removed.\<close>

definition str_rstrip :: "string \<Rightarrow> string \<Rightarrow> string" where
  "str_rstrip chars s = rev (dropWhile (\<lambda>c. c \<in> set chars) (rev s))"

text \<open>
  \<open>re.sub(r'```sql|```', '', s)\<close>: the text is scanned from the left; at each position the
  first alternative that matches is removed and the scan goes on behind it, otherwise the
  character is kept.
\<close>

fun re_sub_fences :: "string \<Rightarrow> string" where
  "re_sub_fences [] = []"
| "re_sub_fences (c # cs) =
     (if prefix ''```sql'' (c # cs) then re_sub_fences (drop 5 cs)
      else if prefix ''```'' (c # cs) then re_sub_fences (drop 2 cs)
      else c # re_sub_fences cs)"

text \<open>
  \<open>re.search(r'(?:of\s+)(\w+)', s)\<close>, returning group 1 of the leftmost match.
  At one position the pattern matches when \<open>of\<close> is followed by at least one whitespace
  character and the first character behind the whitespace is a word character; the
  greedy \<open>\w+\<close> then takes the longest run of word characters.
\<close>

definition match_of_at :: "string \<Rightarrow> string option" where
  "match_of_at s =
     (if prefix ''of'' s then
        (let r = drop 2 s; r' = dropWhile isspace r in
         if r' \<noteq> r \<and> r' \<noteq> [] \<and> is_word_char (hd r') then Some (takeWhile is_word_char r')
         else None)
      else None)"

fun re_search_of :: "string \<Rightarrow> string option" where
  "re_search_of [] = None"
| "re_search_of (c # cs) =
     (case match_of_at (c # cs) of Some w \<Rightarrow> Some w | None \<Rightarrow> re_search_of cs)"

section \<open>The query guard: \<open>clean_sql_query\<close>\<close>

datatype py_error = ValueError string | OtherError string

definition blacklist :: "string list" where
  "blacklist = [''DROP'', ''DELETE'', ''UPDATE'', ''INSERT'', ''ALTER'', ''--'', '';--'', ''/*'']"

definition sales_query :: string where
  "sales_query = ''SELECT * FROM Departments WHERE Name = 'Sales';''"

text \<open>
  The \<open>ValueError\<close> raised at the blacklist is caught by the function's own handler and
  raised again as a \<open>ValueError\<close> whose message has the prefix of the handler.
\<close>

definition clean_sql_query :: "string \<Rightarrow> py_error + string" where
  "clean_sql_query raw =
     (let sql_query = str_strip (re_sub_fences raw) in
      if list_ex (\<lambda>word. sublist word (str_upper sql_query)) blacklist then
        Inl (ValueError (''Failed to clean SQL query: '' @ ''Invalid SQL operation detected''))
      else
        (let sql_query = (if \<not> prefix ''SELECT'' (str_upper sql_query)
                          then ''SELECT * FROM Departments WHERE '' @ sql_query else sql_query);
             sql_query = (if sublist ''JOIN'' (str_upper sql_query) then sales_query else sql_query)
         in Inr (str_rstrip '';'' sql_query @ '';'')))"

text \<open>
  The intermediate values of \<open>clean_sql_query\<close>: the text after the fences and the
  surrounding whitespace are gone, the blacklist test, and the text after the wrapping.
\<close>

definition fence_stripped :: "string \<Rightarrow> string" where
  "fence_stripped raw = str_strip (re_sub_fences raw)"

definition blacklisted :: "string \<Rightarrow> bool" where
  "blacklisted q = list_ex (\<lambda>word. sublist word (str_upper q)) blacklist"

definition shape_normalized :: "string \<Rightarrow> string" where
  "shape_normalized q =
     (if \<not> prefix ''SELECT'' (str_upper q) then ''SELECT * FROM Departments WHERE '' @ q else q)"

definition guard_error :: py_error where
  "guard_error = ValueError ''Failed to clean SQL query: Invalid SQL operation detected''"

section \<open>The synthesizer call and the override: \<open>generate_sql_query\<close>\<close>

text \<open>
  The text generator is outside the program and samples its output, so it is a step
  function on a state of its own: a call takes the prompt and either raises or returns
  the generated text.
\<close>

type_synonym 'm model = "'m \<Rightarrow> string \<Rightarrow> (py_error + string) \<times> 'm"

definition prompt_lines :: "string list" where
  "prompt_lines =
    [''        Convert to simple SQL. Use table 'Departments' with columns: Name, Manager'',
     ''        '',
     ''        Examples:'',
     ''        Question: Who manages Sales?'',
     ''        SQL: SELECT Manager FROM Departments WHERE Name = 'Sales';'',
     ''        '',
     ''        Question: Show all departments'',
     ''        SQL: SELECT * FROM Departments;'',
     ''        '',
     ''        Question: List department names'',
     ''        SQL: SELECT Name FROM Departments;'',
     ''        '',
     ''        Question: Find manager of Marketing'',
     ''        SQL: SELECT Manager FROM Departments WHERE Name = 'Marketing';'',
     ''        '',
     ''        Current question: '']"

definition prompt_context :: string where
  "prompt_context = concat (map (\<lambda>l. CHR 0x0A # l) prompt_lines)"

definition manager_query :: "string \<Rightarrow> string" where
  "manager_query dept_name =
     ''SELECT Manager FROM Departments WHERE Name = '' @ [CHR 0x27] @ dept_name @ [CHR 0x27] @ '';''"

definition generate_sql_query :: "string \<Rightarrow> 'm model \<Rightarrow> 'm \<Rightarrow> (py_error + string) \<times> 'm" where
  "generate_sql_query nl_query model ms =
     (let full_prompt = prompt_context @ nl_query in
      case model ms full_prompt of
        (Inl e, ms') \<Rightarrow> (Inl e, ms')
      | (Inr generated_text, ms') \<Rightarrow>
          (case clean_sql_query generated_text of
             Inl e \<Rightarrow> (Inl e, ms')
           | Inr sql_query \<Rightarrow>
               (if sublist ''Who'' nl_query \<and> sublist ''manager'' (str_lower nl_query) then
                  (case re_search_of nl_query of
                     Some dept_name \<Rightarrow> (Inr (manager_query dept_name), ms')
                   | None \<Rightarrow> (Inr sql_query, ms'))
                else (Inr sql_query, ms'))))"

section \<open>The executor: \<open>execute_sql_query\<close>\<close>

text \<open>
  The database is outside the program as well: a step function on its own state that,
  given a statement, returns the fetched columns and rows, or raises an \<open>sqlite3.Error\<close>
  or another exception. Connecting, executing and fetching are one step.
\<close>

datatype 'v db_outcome = Fetched "string list" "'v list list" | SqliteError string | OtherException string

type_synonym ('d, 'v) database = "'d \<Rightarrow> string \<Rightarrow> 'v db_outcome \<times> 'd"

text \<open>The second component of the pair the function returns: rows, or a message.\<close>

datatype 'v results = RowList "'v list list" | Message string

definition execute_sql_query ::
  "('d, 'v) database \<Rightarrow> 'd \<Rightarrow> string \<Rightarrow> (string list option \<times> 'v results) \<times> 'd" where
  "execute_sql_query db ds query =
     (case db ds query of
        (Fetched columns rows, ds') \<Rightarrow> ((Some columns, RowList rows), ds')
      | (SqliteError e, ds') \<Rightarrow>
          (let error_msg =
             (if sublist ''no such table'' (str_lower e) then
                ''Database table not found. Please ensure the database is properly set up.''
              else if sublist ''syntax error'' (str_lower e) then
                ''Invalid SQL query syntax. Please try rephrasing your question.''
              else e)
           in ((None, Message (''Database error: '' @ error_msg)), ds'))
      | (OtherException e, ds') \<Rightarrow> ((None, Message (''An error occurred: '' @ e)), ds'))"

section \<open>The request handler: \<open>main\<close>\<close>

text \<open>
  What one run of the script puts on the page behind the input field. The static page
  header and the debug sidebar are left out.
\<close>

datatype 'v ui_event =
    UiError string
  | UiWarning string
  | UiInfo string
  | UiSubheader string
  | UiCode string
  | UiDataframe "(string \<times> 'v) list list"

text \<open>
  The session: \<open>st.session_state.error_count\<close>, and the states of the two collaborators.
\<close>

record ('m, 'd) session =
  error_count :: nat
  model_state :: 'm
  db_state :: 'd

definition generic_failure :: string where
  "generic_failure = ''An error occurred while processing your request. Please try again.''"

definition rephrase_hint :: string where
  "rephrase_hint = ''Having trouble? Try rephrasing your question or check our example queries above.''"

text \<open>
  \<open>loaded\<close> is what \<open>load_model()\<close> gives (the model, or the exception it raises),
  \<open>button\<close> whether "Generate SQL Query" was pressed in this run. An exception of the
  \<open>try\<close> block is caught by the handler at its end, after whatever was already shown;
  \<open>zip(columns, row)\<close> raises when \<open>columns\<close> is \<open>None\<close>.
\<close>

definition main ::
  "py_error + 'm model \<Rightarrow> ('d, 'v) database \<Rightarrow> string \<Rightarrow> bool \<Rightarrow> ('m, 'd) session
     \<Rightarrow> 'v ui_event list \<times> ('m, 'd) session" where
  "main loaded db nl_query button st =
     (case loaded of
        Inl e \<Rightarrow> ([UiError ''Failed to load the model. Please refresh the page or contact support.''], st)
      | Inr model \<Rightarrow>
          if \<not> button then ([], st)
          else if str_strip nl_query = [] then ([UiWarning ''Please enter a question first.''], st)
          else
            (case generate_sql_query nl_query model (model_state st) of
               (Inl e, ms) \<Rightarrow>
                 ([UiError generic_failure],
                  st\<lparr>error_count := error_count st + 1, model_state := ms\<rparr>)
             | (Inr sql_query, ms) \<Rightarrow>
                 (let shown = [UiSubheader ''Generated SQL Query:'', UiCode sql_query] in
                  case execute_sql_query db (db_state st) sql_query of
                    ((columns, Message results), ds) \<Rightarrow>
                      (shown @ [UiError results] @
                         (if error_count st + 1 \<ge> 3 then [UiWarning rephrase_hint] else []),
                       st\<lparr>error_count := error_count st + 1, model_state := ms, db_state := ds\<rparr>)
                  | ((columns, RowList results), ds) \<Rightarrow>
                      if results \<noteq> [] then
                        (case columns of
                           Some cols \<Rightarrow>
                             (shown @ [UiSubheader ''Query Results:'',
                                       UiDataframe (map (\<lambda>row. zip cols row) results)],
                              st\<lparr>error_count := 0, model_state := ms, db_state := ds\<rparr>)
                         | None \<Rightarrow>
                             (shown @ [UiSubheader ''Query Results:'', UiError generic_failure],
                              st\<lparr>error_count := 0 + 1, model_state := ms, db_state := ds\<rparr>))
                      else
                        (shown @ [UiInfo ''No matching results found.''],
                         st\<lparr>model_state := ms, db_state := ds\<rparr>))))"

text \<open>
  A session is a sequence of runs with the button pressed, each on the state the run
  before left; a new session starts with the counter at zero.
\<close>

fun run_session ::
  "py_error + 'm model \<Rightarrow> ('d, 'v) database \<Rightarrow> string list \<Rightarrow> ('m, 'd) session
     \<Rightarrow> 'v ui_event list list \<times> ('m, 'd) session" where
  "run_session loaded db [] st = ([], st)"
| "run_session loaded db (q # qs) st =
     (case main loaded db q True st of
        (out, st') \<Rightarrow> (case run_session loaded db qs st' of (outs, st'') \<Rightarrow> (out # outs, st'')))"

definition hint_shown :: "'v ui_event list \<Rightarrow> bool" where
  "hint_shown out = (UiWarning rephrase_hint \<in> set out)"

section \<open>Collaborators used in the examples\<close>

text \<open>
  A generator that returns a fixed text and counts its calls, a database that fails
  with a fixed message, and the seeded database answering every statement with the five
  departments; both databases keep the statements they were given, the latest first.
\<close>

definition fixed_model :: "string \<Rightarrow> nat model" where
  "fixed_model text n prompt = (Inr text, Suc n)"

definition failing_db :: "string \<Rightarrow> (string list, string) database" where
  "failing_db msg log query = (SqliteError msg, query # log)"

definition seeded_db :: "(string list, string) database" where
  "seeded_db log query =
     (Fetched [''Name'', ''Manager'']
        [[''Sales'', ''John Smith''], [''Marketing'', ''Jane Doe''], [''Engineering'', ''Bob Wilson''],
         [''HR'', ''Sarah Johnson''], [''Finance'', ''Mike Brown'']],
      query # log)"

definition new_session :: "(nat, string list) session" where
  "new_session = \<lparr>error_count = 0, model_state = 0, db_state = []\<rparr>"

section \<open>Facts about lists and strings\<close>

lemma sublist_snoc_other:
  assumes "sublist t (a @ [c])" "t \<noteq> []" "last t \<noteq> c"
  shows "sublist t a"
proof -
  from assms(1) obtain ps ss where eq: "a @ [c] = ps @ t @ ss" by (auto simp: sublist_def)
  show ?thesis
  proof (cases ss rule: rev_cases)
    case Nil
    with eq assms(2) have "last (a @ [c]) = last t" by simp
    with assms(3) show ?thesis by simp
  next
    case (snoc ss' x)
    with eq have "a = ps @ t @ ss'" by (metis append_assoc butlast_snoc)
    then show ?thesis by (auto simp: sublist_def)
  qed
qed

lemma sublist_separator:
  assumes "sublist t (a @ c # b)" "c \<notin> set t"
  shows "sublist t a \<or> sublist t b"
proof -
  from assms(1) consider "sublist t a" | "sublist t (c # b)"
    | x1 x2 where "t = x1 @ x2" "suffix x1 a" "prefix x2 (c # b)"
    by (auto simp: sublist_append)
  then show ?thesis
  proof cases
    case 1 then show ?thesis by simp
  next
    case 2
    then have "prefix t (c # b) \<or> sublist t b" by (simp add: sublist_Cons_right)
    moreover have "prefix t (c # b) \<Longrightarrow> t = []" using assms(2) by (cases t) auto
    ultimately show ?thesis by auto
  next
    case 3
    then have "x2 = []" using assms(2) by (cases x2) auto
    with 3 show ?thesis by (auto simp: suffix_imp_sublist)
  qed
qed

lemma prefix_append_disjoint:
  assumes "prefix p (a @ b)" "set p \<inter> set b = {}"
  shows "prefix p a"
proof -
  from assms(1) consider "prefix p a" | us where "p = a @ us" "prefix us b"
    by (auto simp: prefix_append)
  then show ?thesis
  proof cases
    case 1 then show ?thesis .
  next
    case 2
    then have "us = []" using assms(2) by (cases us) (auto simp: prefix_def)
    with 2 show ?thesis by simp
  qed
qed

lemma re_sub_fences_head:
  "re_sub_fences s = CHR ''`'' # r \<Longrightarrow> \<exists>s'. s = CHR ''`'' # s'"
  by (cases s) (auto split: if_splits)

lemma re_sub_fences_two:
  assumes "\<not> prefix ''```'' (CHR ''`'' # cs)"
  shows "\<not> prefix ''``'' (re_sub_fences cs)"
proof
  assume "prefix ''``'' (re_sub_fences cs)"
  then obtain r where r: "re_sub_fences cs = CHR ''`'' # CHR ''`'' # r"
    by (auto simp: prefix_def)
  then obtain cs' where cs: "cs = CHR ''`'' # cs'" using re_sub_fences_head by blast
  with assms have nb: "\<not> prefix ''`'' cs'" by simp
  then have "re_sub_fences cs = CHR ''`'' # re_sub_fences cs'"
    unfolding cs by (cases cs') auto
  with r have "re_sub_fences cs' = CHR ''`'' # r" by simp
  then obtain cs'' where "cs' = CHR ''`'' # cs''" using re_sub_fences_head by blast
  with nb show False by simp
qed

lemma fence_sql_imp_fence: "prefix ''```sql'' s \<Longrightarrow> prefix ''```'' s"
proof -
  have "prefix ''```'' ''```sql''" by simp
  then show "prefix ''```sql'' s \<Longrightarrow> prefix ''```'' s" by (rule prefix_order.trans)
qed

lemma re_sub_fences_no_fence: "\<not> sublist ''```'' (re_sub_fences s)"
proof (induction s rule: re_sub_fences.induct)
  case 1
  then show ?case by simp
next
  case (2 c cs)
  show ?case
  proof (cases "prefix ''```sql'' (c # cs)")
    case True
    then have "re_sub_fences (c # cs) = re_sub_fences (drop 5 cs)"
      by (simp del: Cons_prefix_Cons)
    with 2(1)[OF True] show ?thesis by simp
  next
    case nsql: False
    show ?thesis
    proof (cases "prefix ''```'' (c # cs)")
      case True
      with nsql have "re_sub_fences (c # cs) = re_sub_fences (drop 2 cs)"
        by (simp del: Cons_prefix_Cons)
      with 2(2)[OF nsql True] show ?thesis by simp
    next
      case False
      have eq: "re_sub_fences (c # cs) = c # re_sub_fences cs"
        using nsql False by (simp del: Cons_prefix_Cons)
      have ih: "\<not> sublist ''```'' (re_sub_fences cs)" by (rule 2(3)[OF nsql False])
      have "\<not> prefix ''```'' (c # re_sub_fences cs)"
      proof
        assume p: "prefix ''```'' (c # re_sub_fences cs)"
        then have c: "c = CHR ''`''" and "prefix ''``'' (re_sub_fences cs)" by auto
        with False re_sub_fences_two show False by blast
      qed
      with ih show ?thesis unfolding eq by (simp add: sublist_Cons_right del: Cons_prefix_Cons)
    qed
  qed
qed

lemma re_sub_fences_id: "\<not> sublist ''```'' s \<Longrightarrow> re_sub_fences s = s"
proof (induction s)
  case Nil
  then show ?case by simp
next
  case (Cons c cs)
  then have np: "\<not> prefix ''```'' (c # cs)" and ns: "\<not> sublist ''```'' cs"
    by (auto simp: sublist_Cons_right simp del: Cons_prefix_Cons)
  have "\<not> prefix ''```sql'' (c # cs)" using np fence_sql_imp_fence by blast
  with np ns Cons.IH show ?case by (simp del: Cons_prefix_Cons)
qed

lemma str_upper_append: "str_upper (a @ b) = str_upper a @ str_upper b"
  by (simp add: str_upper_def)

lemma sublist_str_upper: "sublist t s \<Longrightarrow> sublist (str_upper t) (str_upper s)"
  unfolding str_upper_def by (rule map_mono_sublist)

lemma sublist_str_lower: "sublist t s \<Longrightarrow> sublist (str_lower t) (str_lower s)"
  unfolding str_lower_def by (rule map_mono_sublist)

lemma str_rstrip_prefix: "prefix (str_rstrip chars s) s"
proof -
  have "suffix (dropWhile (\<lambda>c. c \<in> set chars) (rev s)) (rev s)" by (rule suffix_dropWhile)
  then show ?thesis unfolding str_rstrip_def by (simp add: suffix_to_prefix)
qed

lemma str_rstrip_decomp: "\<exists>n. s = str_rstrip [c] s @ replicate n c"
proof -
  have "rev s = takeWhile (\<lambda>x. x \<in> set [c]) (rev s) @ dropWhile (\<lambda>x. x \<in> set [c]) (rev s)"
    by simp
  moreover have "takeWhile (\<lambda>x. x \<in> set [c]) (rev s) = replicate (length (takeWhile (\<lambda>x. x \<in> set [c]) (rev s))) c"
    by (rule replicate_length_same[symmetric]) (auto dest: set_takeWhileD)
  ultimately obtain n where "rev s = replicate n c @ dropWhile (\<lambda>x. x \<in> set [c]) (rev s)"
    by metis
  then have "rev (rev s) = rev (replicate n c @ dropWhile (\<lambda>x. x \<in> set [c]) (rev s))" by simp
  then have "s = str_rstrip [c] s @ replicate n c" by (simp add: str_rstrip_def)
  then show ?thesis ..
qed

lemma str_rstrip_snoc: "str_rstrip [c] (s @ [c]) = str_rstrip [c] s"
  by (simp add: str_rstrip_def)

lemma str_rstrip_last: "str_rstrip [c] s \<noteq> [] \<Longrightarrow> last (str_rstrip [c] s) \<noteq> c"
proof -
  assume ne: "str_rstrip [c] s \<noteq> []"
  then have "dropWhile (\<lambda>x. x \<in> set [c]) (rev s) \<noteq> []" by (simp add: str_rstrip_def)
  then have "\<not> (hd (dropWhile (\<lambda>x. x \<in> set [c]) (rev s)) \<in> set [c])" by (rule hd_dropWhile)
  moreover have "last (str_rstrip [c] s) = hd (dropWhile (\<lambda>x. x \<in> set [c]) (rev s))"
    using ne by (simp add: str_rstrip_def last_rev)
  ultimately show ?thesis by simp
qed

lemma str_rstrip_id: "s = [] \<or> last s \<noteq> c \<Longrightarrow> str_rstrip [c] s = s"
  by (cases s rule: rev_cases) (auto simp: str_rstrip_def)

lemma str_rstrip_idem: "str_rstrip [c] (str_rstrip [c] s) = str_rstrip [c] s"
  using str_rstrip_last[of c s] by (intro str_rstrip_id) auto

lemma terminate_idem:
  "str_rstrip [c] (str_rstrip [c] s @ [c]) @ [c] = str_rstrip [c] s @ [c]"
  by (simp add: str_rstrip_snoc str_rstrip_idem)

lemma str_strip_id: "s \<noteq> [] \<Longrightarrow> \<not> isspace (hd s) \<Longrightarrow> \<not> isspace (last s) \<Longrightarrow> str_strip s = s"
proof -
  assume a: "s \<noteq> []" "\<not> isspace (hd s)" "\<not> isspace (last s)"
  then have "dropWhile isspace s = s" by (cases s) auto
  moreover have "dropWhile isspace (rev s) = rev s" using a by (cases s rule: rev_cases) auto
  ultimately show ?thesis by (simp add: str_strip_def)
qed

lemma str_strip_sublist: "sublist (str_strip s) s"
proof -
  have "prefix (str_strip s) (dropWhile isspace s)"
    unfolding str_strip_def using suffix_dropWhile[of isspace "rev (dropWhile isspace s)"]
    by (simp add: suffix_to_prefix)
  moreover have "suffix (dropWhile isspace s) s" by (rule suffix_dropWhile)
  ultimately show ?thesis by (auto simp: sublist_altdef')
qed

lemma str_strip_hd: "str_strip s \<noteq> [] \<Longrightarrow> \<not> isspace (hd (str_strip s))"
proof -
  assume ne: "str_strip s \<noteq> []"
  let ?d = "dropWhile isspace s"
  have p: "prefix (str_strip s) ?d"
    unfolding str_strip_def using suffix_dropWhile[of isspace "rev ?d"]
    by (simp add: suffix_to_prefix)
  with ne have "?d \<noteq> []" by (cases "?d") simp_all
  then have "\<not> isspace (hd ?d)" by (rule hd_dropWhile)
  moreover from p ne have "hd (str_strip s) = hd ?d" by (auto simp: prefix_def)
  ultimately show ?thesis by simp
qed

section \<open>Properties of the guard\<close>

lemma clean_sql_query_steps:
  "clean_sql_query raw =
     (if blacklisted (fence_stripped raw) then Inl guard_error
      else Inr (str_rstrip '';''
                  (if sublist ''JOIN'' (str_upper (shape_normalized (fence_stripped raw)))
                   then sales_query else shape_normalized (fence_stripped raw)) @ '';''))"
  by (simp add: clean_sql_query_def fence_stripped_def blacklisted_def shape_normalized_def
      guard_error_def Let_def)

lemma blacklisted_iff:
  "blacklisted q \<longleftrightarrow> (\<exists>tok \<in> set blacklist. sublist tok (str_upper q))"
  by (simp add: blacklisted_def list_ex_iff)

lemma blacklisted_mono: "sublist a b \<Longrightarrow> blacklisted a \<Longrightarrow> blacklisted b"
  unfolding blacklisted_iff using sublist_str_upper sublist_order.order.trans by blast

lemma str_upper_semi [simp]: "str_upper '';'' = '';''"
  by (simp add: str_upper_def upper_char_def)

lemma blacklist_tokens:
  "tok \<in> set blacklist \<Longrightarrow> tok \<noteq> [] \<and> last tok \<noteq> CHR '';'' \<and> CHR '' '' \<notin> set tok \<and> CHR 0x27 \<notin> set tok"
  by (auto simp: blacklist_def)

lemma blacklisted_snoc: "blacklisted (a @ '';'') \<Longrightarrow> blacklisted a"
proof -
  assume "blacklisted (a @ '';'')"
  then obtain tok where tok: "tok \<in> set blacklist" and sub: "sublist tok (str_upper a @ '';'')"
    by (auto simp: blacklisted_iff str_upper_append)
  from tok have "tok \<noteq> []" "last tok \<noteq> CHR '';''" using blacklist_tokens by blast+
  with sub have "sublist tok (str_upper a)" by (rule sublist_snoc_other)
  with tok show ?thesis unfolding blacklisted_iff by (rule bexI[rotated])
qed

lemma str_upper_wrap:
  "str_upper (''SELECT * FROM Departments WHERE '' @ q)
     = ''SELECT * FROM DEPARTMENTS WHERE'' @ CHR '' '' # str_upper q"
  by (simp add: str_upper_def upper_char_def char_of_eq_iff)

lemma wrap_no_token: "tok \<in> set blacklist \<Longrightarrow> \<not> sublist tok ''SELECT * FROM DEPARTMENTS WHERE''"
  by (auto simp: blacklist_def sublist_Cons_right)

lemma blacklisted_wrap: "blacklisted (''SELECT * FROM Departments WHERE '' @ q) \<Longrightarrow> blacklisted q"
proof -
  assume "blacklisted (''SELECT * FROM Departments WHERE '' @ q)"
  then obtain tok where tok: "tok \<in> set blacklist"
    and sub: "sublist tok (''SELECT * FROM DEPARTMENTS WHERE'' @ CHR '' '' # str_upper q)"
    unfolding blacklisted_iff str_upper_wrap by blast
  from tok have "CHR '' '' \<notin> set tok" using blacklist_tokens by blast
  with sub have "sublist tok ''SELECT * FROM DEPARTMENTS WHERE'' \<or> sublist tok (str_upper q)"
    by (rule sublist_separator)
  with wrap_no_token[OF tok] have "sublist tok (str_upper q)" by simp
  with tok show ?thesis unfolding blacklisted_iff by (rule bexI[rotated])
qed

lemma join_wrap:
  "sublist ''JOIN'' (str_upper (''SELECT * FROM Departments WHERE '' @ q)) \<Longrightarrow> sublist ''JOIN'' (str_upper q)"
proof -
  assume "sublist ''JOIN'' (str_upper (''SELECT * FROM Departments WHERE '' @ q))"
  then have "sublist ''JOIN'' ''SELECT * FROM DEPARTMENTS WHERE'' \<or> sublist ''JOIN'' (str_upper q)"
    unfolding str_upper_wrap by (rule sublist_separator) simp
  moreover have "\<not> sublist ''JOIN'' ''SELECT * FROM DEPARTMENTS WHERE''"
    by (simp add: sublist_Cons_right)
  ultimately show ?thesis by simp
qed

lemma sales_query_terminated: "str_rstrip '';'' sales_query @ '';'' = sales_query"
  by (simp add: sales_query_def str_rstrip_def)

text \<open>
  C1. Whenever the candidate, once its fences and surrounding whitespace are removed,
  contains a blacklisted token in any letter case (some piece \<open>t\<close> of the text reads as
  the token after upper-casing), \<open>clean_sql_query\<close> raises its \<open>ValueError\<close> and returns
  no query.
\<close>

theorem guard_rejects_blacklisted:
  assumes "tok \<in> set blacklist"
    and "sublist t (fence_stripped raw)"
    and "str_upper t = tok"
  shows "clean_sql_query raw =
           Inl (ValueError ''Failed to clean SQL query: Invalid SQL operation detected'')"
proof -
  from assms(2) have "sublist (str_upper t) (str_upper (fence_stripped raw))"
    by (rule sublist_str_upper)
  with assms(1,3) have "blacklisted (fence_stripped raw)"
    unfolding blacklisted_iff by blast
  then show ?thesis by (simp add: clean_sql_query_steps guard_error_def)
qed

theorem guard_rejects_blacklisted_witness:
  "''DROP'' \<in> set blacklist
   \<and> sublist ''dRoP'' (fence_stripped ''```sql select 1; dRoP table Departments ```'')
   \<and> str_upper ''dRoP'' = ''DROP''
   \<and> clean_sql_query ''```sql select 1; dRoP table Departments ```'' =
        Inl (ValueError ''Failed to clean SQL query: Invalid SQL operation detected'')"
proof -
  have a: "''DROP'' \<in> set blacklist" by (simp add: blacklist_def)
  have b: "sublist ''dRoP'' (fence_stripped ''```sql select 1; dRoP table Departments ```'')"
    by code_simp
  have c: "str_upper ''dRoP'' = ''DROP''" by code_simp
  from guard_rejects_blacklisted[OF a b c] a b c show ?thesis by blast
qed

lemma clean_sales_query: "clean_sql_query sales_query = Inr sales_query"
  by code_simp

lemma wrap_select: "prefix ''SELECT'' (str_upper (''SELECT * FROM Departments WHERE '' @ q))"
  by (simp only: str_upper_wrap) simp

lemma shape_normalized_select: "prefix ''SELECT'' (str_upper (shape_normalized q))"
  unfolding shape_normalized_def using wrap_select by (cases "prefix ''SELECT'' (str_upper q)") simp_all

lemma shape_normalized_not_blacklisted: "\<not> blacklisted q \<Longrightarrow> \<not> blacklisted (shape_normalized q)"
  unfolding shape_normalized_def using blacklisted_wrap
  by (cases "prefix ''SELECT'' (str_upper q)") auto



lemma str_upper_replicate_semi: "str_upper (replicate n (CHR '';'')) = replicate n (CHR '';'')"
  by (simp add: str_upper_def upper_char_def)

lemma str_upper_rstrip_prefix:
  assumes "prefix p (str_upper s)" "CHR '';'' \<notin> set p"
  shows "prefix p (str_upper (str_rstrip '';'' s))"
proof -
  obtain n where "s = str_rstrip '';'' s @ replicate n (CHR '';'')"
    using str_rstrip_decomp by blast
  then have "str_upper s = str_upper (str_rstrip '';'' s) @ replicate n (CHR '';'')"
    by (metis str_upper_append str_upper_replicate_semi)
  with assms(1) have "prefix p (str_upper (str_rstrip '';'' s) @ replicate n (CHR '';''))" by simp
  then show ?thesis by (rule prefix_append_disjoint) (use assms(2) in auto)
qed

lemma isspace_semi: "\<not> isspace (CHR '';'')"
  by (simp add: isspace_def)

lemma upper_char_space: "isspace c \<Longrightarrow> upper_char c = c"
  by (auto simp: isspace_def upper_char_def Let_def)

lemma select_head_not_space:
  assumes "prefix ''SELECT'' (str_upper s)"
  shows "s \<noteq> [] \<and> \<not> isspace (hd s)"
proof (cases s)
  case Nil
  with assms show ?thesis by (simp add: str_upper_def)
next
  case (Cons c cs)
  with assms have u: "upper_char c = CHR ''S''" by (simp add: str_upper_def)
  have "\<not> isspace c"
  proof
    assume sp: "isspace c"
    then have "c = CHR ''S''" using u upper_char_space by simp
    with sp show False by (simp add: isspace_def)
  qed
  with Cons show ?thesis by simp
qed

text \<open>A guarded text is a fixed point of the guard.\<close>

lemma clean_fixed_point:
  assumes nf: "\<not> sublist ''```'' q"
    and nb: "\<not> blacklisted q"
    and sel: "prefix ''SELECT'' (str_upper q)"
    and nj: "\<not> sublist ''JOIN'' (str_upper q)"
  shows "clean_sql_query (str_rstrip '';'' q @ '';'') = Inr (str_rstrip '';'' q @ '';'')"
proof -
  let ?a = "str_rstrip '';'' q"
  let ?g = "?a @ '';''"
  have pa: "prefix ?a q" by (rule str_rstrip_prefix)
  then have sa: "sublist ?a q" by (rule prefix_imp_sublist)
  have "\<not> sublist ''```'' ?g"
  proof
    assume "sublist ''```'' ?g"
    then have "sublist ''```'' ?a" by (rule sublist_snoc_other) simp_all
    then have "sublist ''```'' q" using sa by (rule sublist_order.order.trans)
    with nf show False by simp
  qed
  then have fences: "re_sub_fences ?g = ?g" by (rule re_sub_fences_id)
  have sela: "prefix ''SELECT'' (str_upper ?a)"
    using sel by (rule str_upper_rstrip_prefix) simp
  then have ha: "?a \<noteq> []" "\<not> isspace (hd ?a)" using select_head_not_space by blast+
  then have "\<not> isspace (hd ?g)" by simp
  moreover have "\<not> isspace (last ?g)" using isspace_semi by simp
  ultimately have "str_strip ?g = ?g" by (intro str_strip_id) simp_all
  with fences have fs: "fence_stripped ?g = ?g" by (simp add: fence_stripped_def)
  have nbg: "\<not> blacklisted ?g"
  proof
    assume "blacklisted ?g"
    then have "blacklisted ?a" by (rule blacklisted_snoc)
    with sa have "blacklisted q" by (rule blacklisted_mono)
    with nb show False by simp
  qed
  have selg: "prefix ''SELECT'' (str_upper ?g)"
    using sela by (simp add: str_upper_append)
  then have sn: "shape_normalized ?g = ?g" by (simp add: shape_normalized_def)
  have njg: "\<not> sublist ''JOIN'' (str_upper ?g)"
  proof
    assume "sublist ''JOIN'' (str_upper ?g)"
    then have "sublist ''JOIN'' (str_upper ?a @ '';'')" by (simp add: str_upper_append)
    then have "sublist ''JOIN'' (str_upper ?a)" by (rule sublist_snoc_other) simp_all
    moreover have "sublist (str_upper ?a) (str_upper q)" using sa by (rule sublist_str_upper)
    ultimately have "sublist ''JOIN'' (str_upper q)" by (rule sublist_order.order.trans)
    with nj show False by simp
  qed
  have "str_rstrip '';'' ?g @ '';'' = ?g" by (rule terminate_idem)
  with fs nbg sn njg show ?thesis by (simp only: clean_sql_query_steps if_False)
qed

lemma fence_stripped_no_fence: "\<not> sublist ''```'' (fence_stripped raw)"
proof
  assume "sublist ''```'' (fence_stripped raw)"
  moreover have "sublist (fence_stripped raw) (re_sub_fences raw)"
    unfolding fence_stripped_def by (rule str_strip_sublist)
  ultimately have "sublist ''```'' (re_sub_fences raw)" by (rule sublist_order.order.trans)
  with re_sub_fences_no_fence show False by blast
qed

lemma shape_normalized_no_fence:
  assumes "\<not> sublist ''```'' q"
  shows "\<not> sublist ''```'' (shape_normalized q)"
proof (cases "prefix ''SELECT'' (str_upper q)")
  case True
  with assms show ?thesis by (simp add: shape_normalized_def)
next
  case False
  have "\<not> sublist ''```'' (''SELECT * FROM Departments WHERE'' @ CHR '' '' # q)"
  proof
    assume "sublist ''```'' (''SELECT * FROM Departments WHERE'' @ CHR '' '' # q)"
    then have "sublist ''```'' ''SELECT * FROM Departments WHERE'' \<or> sublist ''```'' q"
      by (rule sublist_separator) simp
    moreover have "\<not> sublist ''```'' ''SELECT * FROM Departments WHERE''"
      by (simp add: sublist_Cons_right)
    ultimately show False using assms by simp
  qed
  with False show ?thesis by (simp add: shape_normalized_def)
qed

text \<open>
  C3. A candidate free of blacklisted tokens whose text, after the fences are stripped
  and after the optional wrapping, contains \<open>JOIN\<close> in any letter case is replaced by
  the fixed query on the Sales department.
\<close>

theorem guard_join_fallback:
  assumes "\<not> blacklisted (fence_stripped raw)"
    and "sublist t (shape_normalized (fence_stripped raw))"
    and "str_upper t = ''JOIN''"
  shows "clean_sql_query raw = Inr ''SELECT * FROM Departments WHERE Name = 'Sales';''"
proof -
  from assms(2) have "sublist (str_upper t) (str_upper (shape_normalized (fence_stripped raw)))"
    by (rule sublist_str_upper)
  with assms(3) have "sublist ''JOIN'' (str_upper (shape_normalized (fence_stripped raw)))"
    by simp
  with assms(1) have "clean_sql_query raw = Inr (str_rstrip '';'' sales_query @ '';'')"
    by (simp only: clean_sql_query_steps if_False if_True)
  then show ?thesis by (simp only: sales_query_terminated) (simp add: sales_query_def)
qed

theorem guard_join_fallback_witness:
  "\<not> blacklisted (fence_stripped ''select a from b Join c on x'')
   \<and> sublist ''Join'' (shape_normalized (fence_stripped ''select a from b Join c on x''))
   \<and> str_upper ''Join'' = ''JOIN''
   \<and> clean_sql_query ''select a from b Join c on x''
        = Inr ''SELECT * FROM Departments WHERE Name = 'Sales';''"
proof -
  have a: "\<not> blacklisted (fence_stripped ''select a from b Join c on x'')" by code_simp
  have b: "sublist ''Join'' (shape_normalized (fence_stripped ''select a from b Join c on x''))"
    by code_simp
  have c: "str_upper ''Join'' = ''JOIN''" by code_simp
  from guard_join_fallback[OF a b c] a b c show ?thesis by blast
qed



text \<open>
  C7. The guard is idempotent: whatever it returns, it accepts and returns unchanged;
  and stripping the trailing semicolons and appending one is idempotent as well.
\<close>

theorem guard_idempotent:
  assumes "clean_sql_query raw = Inr g"
  shows "clean_sql_query g = Inr g
         \<and> str_rstrip '';'' (str_rstrip '';'' s @ '';'') @ '';'' = str_rstrip '';'' s @ '';''"
proof
  let ?q = "shape_normalized (fence_stripped raw)"
  from assms have nb: "\<not> blacklisted (fence_stripped raw)"
    by (auto simp: clean_sql_query_steps split: if_splits)
  show "clean_sql_query g = Inr g"
  proof (cases "sublist ''JOIN'' (str_upper ?q)")
    case True
    with nb have "clean_sql_query raw = Inr (str_rstrip '';'' sales_query @ '';'')"
      by (simp only: clean_sql_query_steps if_False if_True)
    with assms have "g = sales_query" by (simp only: sales_query_terminated) simp
    then show ?thesis by (simp only: clean_sales_query)
  next
    case False
    with nb have "clean_sql_query raw = Inr (str_rstrip '';'' ?q @ '';'')"
      by (simp only: clean_sql_query_steps if_False)
    with assms have g: "g = str_rstrip '';'' ?q @ '';''" by simp
    have "\<not> sublist ''```'' ?q"
      using fence_stripped_no_fence by (rule shape_normalized_no_fence)
    moreover have "\<not> blacklisted ?q" using nb by (rule shape_normalized_not_blacklisted)
    moreover have "prefix ''SELECT'' (str_upper ?q)" by (rule shape_normalized_select)
    ultimately show ?thesis unfolding g using False by (rule clean_fixed_point)
  qed
  show "str_rstrip '';'' (str_rstrip '';'' s @ '';'') @ '';'' = str_rstrip '';'' s @ '';''"
    by (rule terminate_idem)
qed

theorem guard_idempotent_witness:
  "clean_sql_query ''```sql select Name from Departments;; ```'' = Inr ''select Name from Departments;''
   \<and> clean_sql_query ''select Name from Departments;'' = Inr ''select Name from Departments;''
   \<and> str_rstrip '';'' (str_rstrip '';'' ''a;;'' @ '';'') @ '';'' = str_rstrip '';'' ''a;;'' @ '';''"
proof -
  have a: "clean_sql_query ''```sql select Name from Departments;; ```'' = Inr ''select Name from Departments;''"
    by code_simp
  from guard_idempotent[OF a, of "''a;;''"] a show ?thesis by blast
qed

section \<open>Properties of the override\<close>

lemma match_of_at_Some:
  assumes "match_of_at s = Some w"
  shows "w \<noteq> [] \<and> list_all is_word_char w
         \<and> (\<exists>ws rest. s = ''of'' @ ws @ w @ rest \<and> ws \<noteq> [] \<and> list_all isspace ws
               \<and> takeWhile is_word_char (w @ rest) = w)"
proof -
  let ?r = "drop 2 s"
  let ?r' = "dropWhile isspace ?r"
  from assms have p: "prefix ''of'' s" and ne: "?r' \<noteq> ?r" "?r' \<noteq> []"
    and hd: "is_word_char (hd ?r')" and w: "w = takeWhile is_word_char ?r'"
    by (auto simp: match_of_at_def Let_def split: if_splits)
  from p have s: "s = ''of'' @ ?r" by (auto simp: prefix_def)
  have r: "?r = takeWhile isspace ?r @ ?r'" by simp
  have r': "?r' = w @ dropWhile is_word_char ?r'" unfolding w by simp
  have "w \<noteq> []" using ne(2) hd unfolding w by (cases ?r') auto
  moreover have "list_all is_word_char w" unfolding w list_all_iff by (auto dest: set_takeWhileD)
  moreover have "takeWhile isspace ?r \<noteq> []"
  proof
    assume "takeWhile isspace ?r = []"
    with r have "?r = ?r'" by (metis append_Nil)
    with ne(1) show False by simp
  qed
  moreover have "list_all isspace (takeWhile isspace ?r)"
    unfolding list_all_iff by (auto dest: set_takeWhileD)
  moreover have "s = ''of'' @ takeWhile isspace ?r @ w @ dropWhile is_word_char ?r'"
    using s r r' by metis
  moreover have "takeWhile is_word_char (w @ dropWhile is_word_char ?r') = w"
    using r' w by simp
  ultimately show ?thesis by blast
qed

lemma re_search_of_Some:
  "re_search_of s = Some w \<Longrightarrow> \<exists>pre s'. s = pre @ s' \<and> match_of_at s' = Some w"
proof (induction s)
  case Nil
  then show ?case by simp
next
  case (Cons c cs)
  show ?case
  proof (cases "match_of_at (c # cs)")
    case None
    with Cons.prems have "re_search_of cs = Some w" by simp
    with Cons.IH obtain pre s' where "cs = pre @ s'" "match_of_at s' = Some w" by blast
    then have "c # cs = (c # pre) @ s'" by simp
    with \<open>match_of_at s' = Some w\<close> show ?thesis by blast
  next
    case (Some v)
    with Cons.prems have "match_of_at (c # cs) = Some w" by simp
    then have "c # cs = [] @ (c # cs) \<and> match_of_at (c # cs) = Some w" by simp
    then show ?thesis by blast
  qed
qed

lemma re_search_of_word:
  assumes "re_search_of s = Some w"
  shows "w \<noteq> [] \<and> list_all is_word_char w
         \<and> (\<exists>pre ws rest. s = pre @ ''of'' @ ws @ w @ rest \<and> ws \<noteq> [] \<and> list_all isspace ws
               \<and> takeWhile is_word_char (w @ rest) = w)"
proof -
  from assms obtain pre s' where s: "s = pre @ s'" and m: "match_of_at s' = Some w"
    using re_search_of_Some by blast
  from match_of_at_Some[OF m] obtain ws rest where
    "w \<noteq> []" "list_all is_word_char w" "s' = ''of'' @ ws @ w @ rest" "ws \<noteq> []"
    "list_all isspace ws" "takeWhile is_word_char (w @ rest) = w" by blast
  with s show ?thesis by blast
qed

lemma upper_char_word: "is_word_char c \<Longrightarrow> is_word_char (upper_char c)"
  by (auto simp: is_word_char_def upper_char_def Let_def)

lemma word_char_plain:
  "is_word_char c \<Longrightarrow> c \<noteq> CHR 0x27 \<and> c \<noteq> CHR '';'' \<and> c \<noteq> CHR ''-'' \<and> c \<noteq> CHR ''/'' \<and> c \<noteq> CHR ''*'' \<and> c \<noteq> CHR '' ''"
  by (auto simp: is_word_char_def)

lemma generate_guard_error:
  assumes "model ms (prompt_context @ nl_query) = (Inr text, ms')"
    and "clean_sql_query text = Inl e"
  shows "generate_sql_query nl_query model ms = (Inl e, ms')"
  using assms by (simp add: generate_sql_query_def)

lemma generate_override:
  assumes "sublist ''Who'' nl_query"
    and "sublist ''manager'' (str_lower nl_query)"
    and "re_search_of nl_query = Some dept"
    and "model ms (prompt_context @ nl_query) = (Inr text, ms')"
    and "clean_sql_query text = Inr q"
  shows "generate_sql_query nl_query model ms = (Inr (manager_query dept), ms')"
  using assms by (simp add: generate_sql_query_def)

lemma generate_no_override:
  assumes "\<not> sublist ''Who'' nl_query"
    and "model ms (prompt_context @ nl_query) = (Inr text, ms')"
    and "clean_sql_query text = Inr q"
  shows "generate_sql_query nl_query model ms = (Inr q, ms')"
  using assms by (simp add: generate_sql_query_def)

lemma manager_query_parts:
  "manager_query dept =
     ''SELECT Manager FROM Departments WHERE Name = '' @ CHR 0x27 # dept @ CHR 0x27 # '';''"
  by (simp add: manager_query_def)

lemma str_upper_manager_query:
  "str_upper (manager_query dept) =
     ''SELECT MANAGER FROM DEPARTMENTS WHERE NAME = '' @ CHR 0x27 # str_upper dept @ CHR 0x27 # '';''"
  by (simp add: manager_query_def str_upper_def upper_char_def char_of_eq_iff)

lemma word_filter:
  assumes "list_all is_word_char w" "\<not> is_word_char c"
  shows "filter (\<lambda>x. x = c) w = []"
  using assms by (auto simp: filter_empty_conv list_all_iff)

lemma not_word_quote: "\<not> is_word_char (CHR 0x27)" by (simp add: is_word_char_def)
lemma not_word_semi: "\<not> is_word_char (CHR '';'')" by (simp add: is_word_char_def)

lemma manager_query_quotes:
  "list_all is_word_char dept \<Longrightarrow> filter (\<lambda>c. c = CHR 0x27) (manager_query dept) = [CHR 0x27, CHR 0x27]"
  by (simp add: manager_query_parts word_filter[OF _ not_word_quote])

lemma manager_query_semis:
  "list_all is_word_char dept \<Longrightarrow> filter (\<lambda>c. c = CHR '';'') (manager_query dept) = '';''"
  by (simp add: manager_query_parts word_filter[OF _ not_word_semi])

lemma manager_query_last: "last (manager_query dept) = CHR '';''"
  by (simp add: manager_query_def)

lemma str_upper_word: "list_all is_word_char w \<Longrightarrow> list_all is_word_char (str_upper w)"
  by (auto simp: str_upper_def list_all_iff upper_char_word)

text \<open>A piece of the built query that has no quote lies in the quoted word, or before it.\<close>

lemma manager_query_sublist:
  assumes "sublist tok (str_upper (manager_query dept))" "CHR 0x27 \<notin> set tok"
  shows "sublist tok ''SELECT MANAGER FROM DEPARTMENTS WHERE NAME = ''
         \<or> sublist tok (str_upper dept) \<or> sublist tok '';''"
proof -
  from assms(1) have
    "sublist tok (''SELECT MANAGER FROM DEPARTMENTS WHERE NAME = '' @ CHR 0x27 # (str_upper dept @ CHR 0x27 # '';''))"
    by (simp only: str_upper_manager_query)
  then have "sublist tok ''SELECT MANAGER FROM DEPARTMENTS WHERE NAME = ''
             \<or> sublist tok (str_upper dept @ CHR 0x27 # '';'')"
    using assms(2) by (rule sublist_separator)
  moreover have "sublist tok (str_upper dept) \<or> sublist tok '';''"
    if "sublist tok (str_upper dept @ CHR 0x27 # '';'')"
    using that assms(2) by (rule sublist_separator)
  ultimately show ?thesis by blast
qed

lemma head_no_token:
  "tok \<in> set blacklist \<Longrightarrow> \<not> sublist tok ''SELECT MANAGER FROM DEPARTMENTS WHERE NAME = ''"
  by (auto simp: blacklist_def sublist_Cons_right)

lemma semi_no_token: "tok \<in> set blacklist \<Longrightarrow> \<not> sublist tok '';''"
  by (auto simp: blacklist_def sublist_Cons_right)

lemma manager_query_token:
  assumes "tok \<in> set blacklist" "sublist tok (str_upper (manager_query dept))"
  shows "sublist tok (str_upper dept)"
proof -
  from assms(1) have "CHR 0x27 \<notin> set tok" using blacklist_tokens by blast
  with assms(2) have "sublist tok ''SELECT MANAGER FROM DEPARTMENTS WHERE NAME = ''
         \<or> sublist tok (str_upper dept) \<or> sublist tok '';''" by (rule manager_query_sublist)
  with head_no_token[OF assms(1)] semi_no_token[OF assms(1)] show ?thesis by blast
qed

lemma word_no_marker:
  assumes "list_all is_word_char w" "sublist m w" "c \<in> set m"
  shows "is_word_char c"
proof -
  from assms(2) have "set m \<subseteq> set w" by (rule set_mono_sublist)
  with assms(1,3) show ?thesis by (auto simp: list_all_iff)
qed

lemma manager_query_no_marker:
  assumes "list_all is_word_char dept" "m \<in> {''--'', '';--'', ''/*''}"
  shows "\<not> sublist m (str_upper (manager_query dept))"
proof
  assume s: "sublist m (str_upper (manager_query dept))"
  from assms(2) have b: "m \<in> set blacklist" by (auto simp: blacklist_def)
  then have sub: "sublist m (str_upper dept)" using s by (rule manager_query_token)
  have wd: "list_all is_word_char (str_upper dept)" using assms(1) by (rule str_upper_word)
  from assms(2) have "CHR ''-'' \<in> set m \<or> CHR ''*'' \<in> set m" by auto
  moreover have "\<not> is_word_char (CHR ''-'')" "\<not> is_word_char (CHR ''*'')"
    by (simp_all add: is_word_char_def)
  ultimately show False using word_no_marker[OF wd sub] by blast
qed

section \<open>Properties of the request handler and of the executor\<close>

text \<open>
  C2. When the guard rejects the text the generator returned, the request ends there:
  the page shows the generic failure message only, the failure counter goes up by one,
  the generator has been called once, and the database is left as it was, so no
  statement was handed to it.
\<close>

theorem guard_failure_never_executes:
  assumes "str_strip nl_query \<noteq> []"
    and "model (model_state st) (prompt_context @ nl_query) = (Inr text, ms)"
    and "clean_sql_query text = Inl e"
  shows "main (Inr model) db nl_query True st =
           ([UiError generic_failure], st\<lparr>error_count := error_count st + 1, model_state := ms\<rparr>)
         \<and> db_state (snd (main (Inr model) db nl_query True st)) = db_state st"
proof -
  from assms(2,3) have "generate_sql_query nl_query model (model_state st) = (Inl e, ms)"
    by (rule generate_guard_error)
  with assms(1) show ?thesis by (simp add: main_def)
qed

theorem guard_failure_never_executes_witness:
  "str_strip ''Remove the table'' \<noteq> []
   \<and> fixed_model ''DROP TABLE Departments'' (model_state new_session)
        (prompt_context @ ''Remove the table'') = (Inr ''DROP TABLE Departments'', 1)
   \<and> clean_sql_query ''DROP TABLE Departments'' = Inl guard_error
   \<and> main (Inr (fixed_model ''DROP TABLE Departments'')) seeded_db ''Remove the table'' True new_session
        = ([UiError generic_failure], \<lparr>error_count = 1, model_state = 1, db_state = []\<rparr>)"
proof -
  have a: "str_strip ''Remove the table'' \<noteq> []" by code_simp
  have b: "fixed_model ''DROP TABLE Departments'' (model_state new_session)
        (prompt_context @ ''Remove the table'') = (Inr ''DROP TABLE Departments'', 1)"
    by (simp add: fixed_model_def new_session_def)
  have c: "clean_sql_query ''DROP TABLE Departments'' = Inl guard_error" by code_simp
  from guard_failure_never_executes[where model = "fixed_model ''DROP TABLE Departments''"
      and st = new_session and db = seeded_db, OF a b c] a b c show ?thesis
    by (simp add: new_session_def)
qed

text \<open>
  C5 as stated does not hold. When the generator returns \<open>DROP TABLE Departments\<close> for the
  question about Marketing, the call ends with the error of the guard and no query is
  produced: the override is not reached.
\<close>

theorem marketing_override_counterexample:
  "fst (generate_sql_query ''Who is the manager of Marketing?'' (fixed_model ''DROP TABLE Departments'') 0)
     = Inl (ValueError ''Failed to clean SQL query: Invalid SQL operation detected'')"
  by code_simp

text \<open>
  C5, as the program has it. For the question about Marketing the query is the one on
  Marketing for every text of the generator that the guard accepts: the override sits
  behind the guard.
\<close>

theorem marketing_override:
  assumes "model ms (prompt_context @ ''Who is the manager of Marketing?'') = (Inr text, ms')"
    and "clean_sql_query text = Inr q"
  shows "generate_sql_query ''Who is the manager of Marketing?'' model ms =
           (Inr ''SELECT Manager FROM Departments WHERE Name = 'Marketing';'', ms')"
proof -
  have "sublist ''Who'' ''Who is the manager of Marketing?''" by code_simp
  moreover have "sublist ''manager'' (str_lower ''Who is the manager of Marketing?'')" by code_simp
  moreover have "re_search_of ''Who is the manager of Marketing?'' = Some ''Marketing''" by code_simp
  ultimately have "generate_sql_query ''Who is the manager of Marketing?'' model ms =
           (Inr (manager_query ''Marketing''), ms')"
    using assms by (rule generate_override)
  then show ?thesis by (simp add: manager_query_def)
qed

theorem marketing_override_witness:
  "fixed_model ''SELECT Name FROM Departments'' 0 (prompt_context @ ''Who is the manager of Marketing?'')
     = (Inr ''SELECT Name FROM Departments'', 1)
   \<and> clean_sql_query ''SELECT Name FROM Departments'' = Inr ''SELECT Name FROM Departments;''
   \<and> generate_sql_query ''Who is the manager of Marketing?'' (fixed_model ''SELECT Name FROM Departments'') 0
       = (Inr ''SELECT Manager FROM Departments WHERE Name = 'Marketing';'', 1)"
proof -
  have a: "fixed_model ''SELECT Name FROM Departments'' 0 (prompt_context @ ''Who is the manager of Marketing?'')
     = (Inr ''SELECT Name FROM Departments'', 1)" by (simp add: fixed_model_def)
  have b: "clean_sql_query ''SELECT Name FROM Departments'' = Inr ''SELECT Name FROM Departments;''"
    by code_simp
  from marketing_override[where model = "fixed_model ''SELECT Name FROM Departments''" and ms = 0,
      OF a b] a b show ?thesis by blast
qed




text \<open>
  C10 as stated does not hold. For the department word \<open>DROP\<close> the query the override
  builds contains a blacklisted token: the blacklist test of the guard holds of it.
\<close>

theorem override_keyword_counterexample:
  "fst (generate_sql_query ''Who is the manager of DROP'' (fixed_model ''SELECT * FROM Departments'') 0)
     = Inr ''SELECT Manager FROM Departments WHERE Name = 'DROP';''
   \<and> blacklisted ''SELECT Manager FROM Departments WHERE Name = 'DROP';''"
  by code_simp

text \<open>
  C10, as the program has it. When the override fires, the query it builds has the two
  quotes of the literal and no other, one semicolon, at the end, and none of the comment
  markers of the blacklist. A blacklisted keyword can occur in it, and then only inside
  the quoted word, which is made of word characters.
\<close>

theorem override_query_shape:
  assumes "sublist ''Who'' nl_query"
    and "sublist ''manager'' (str_lower nl_query)"
    and "re_search_of nl_query = Some dept"
    and "model ms (prompt_context @ nl_query) = (Inr text, ms')"
    and "clean_sql_query text = Inr q"
  shows "generate_sql_query nl_query model ms = (Inr (manager_query dept), ms')
         \<and> list_all is_word_char dept
         \<and> filter (\<lambda>c. c = CHR 0x27) (manager_query dept) = [CHR 0x27, CHR 0x27]
         \<and> filter (\<lambda>c. c = CHR '';'') (manager_query dept) = '';''
         \<and> last (manager_query dept) = CHR '';''
         \<and> \<not> sublist ''--'' (str_upper (manager_query dept))
         \<and> \<not> sublist '';--'' (str_upper (manager_query dept))
         \<and> \<not> sublist ''/*'' (str_upper (manager_query dept))
         \<and> (\<forall>tok \<in> set blacklist. sublist tok (str_upper (manager_query dept))
                \<longrightarrow> sublist tok (str_upper dept))"
proof -
  have g: "generate_sql_query nl_query model ms = (Inr (manager_query dept), ms')"
    using assms by (rule generate_override)
  have w: "list_all is_word_char dept" using re_search_of_word[OF assms(3)] by blast
  have m1: "\<not> sublist ''--'' (str_upper (manager_query dept))"
    using w by (rule manager_query_no_marker) simp
  have m2: "\<not> sublist '';--'' (str_upper (manager_query dept))"
    using w by (rule manager_query_no_marker) simp
  have m3: "\<not> sublist ''/*'' (str_upper (manager_query dept))"
    using w by (rule manager_query_no_marker) simp
  have k: "\<forall>tok \<in> set blacklist. sublist tok (str_upper (manager_query dept))
                \<longrightarrow> sublist tok (str_upper dept)"
    using manager_query_token by blast
  from g w manager_query_quotes[OF w] manager_query_semis[OF w] manager_query_last m1 m2 m3 k
  show ?thesis by blast
qed

theorem override_query_shape_witness:
  "sublist ''Who'' ''Who is the manager of DROP''
   \<and> sublist ''manager'' (str_lower ''Who is the manager of DROP'')
   \<and> re_search_of ''Who is the manager of DROP'' = Some ''DROP''
   \<and> fixed_model ''SELECT * FROM Departments'' 0 (prompt_context @ ''Who is the manager of DROP'')
        = (Inr ''SELECT * FROM Departments'', 1)
   \<and> clean_sql_query ''SELECT * FROM Departments'' = Inr ''SELECT * FROM Departments;''
   \<and> generate_sql_query ''Who is the manager of DROP'' (fixed_model ''SELECT * FROM Departments'') 0
        = (Inr (manager_query ''DROP''), 1)
   \<and> \<not> sublist ''--'' (str_upper (manager_query ''DROP''))
   \<and> ''DROP'' \<in> set blacklist
   \<and> sublist ''DROP'' (str_upper (manager_query ''DROP''))
   \<and> sublist ''DROP'' (str_upper ''DROP'')"
proof -
  have a: "sublist ''Who'' ''Who is the manager of DROP''" by code_simp
  have b: "sublist ''manager'' (str_lower ''Who is the manager of DROP'')" by code_simp
  have c: "re_search_of ''Who is the manager of DROP'' = Some ''DROP''" by code_simp
  have d: "fixed_model ''SELECT * FROM Departments'' 0 (prompt_context @ ''Who is the manager of DROP'')
        = (Inr ''SELECT * FROM Departments'', 1)" by (simp add: fixed_model_def)
  have e: "clean_sql_query ''SELECT * FROM Departments'' = Inr ''SELECT * FROM Departments;''"
    by code_simp
  have f: "''DROP'' \<in> set blacklist" by (simp add: blacklist_def)
  have g: "sublist ''DROP'' (str_upper (manager_query ''DROP''))" by code_simp
  from override_query_shape[where model = "fixed_model ''SELECT * FROM Departments''" and ms = 0,
      OF a b c d e] a b c d e f g show ?thesis by blast
qed

lemma execute_returns_columns:
  "execute_sql_query db ds query = ((cols, RowList rows), ds') \<Longrightarrow> cols \<noteq> None"
  by (auto simp: execute_sql_query_def Let_def split: prod.splits db_outcome.splits)

lemma hint_shown_failure:
  "hint_shown ([UiSubheader a, UiCode b] @ [UiError m] @ (if c then [UiWarning rephrase_hint] else [])) = c"
  by (simp add: hint_shown_def)

text \<open>
  C8 as stated does not hold. With four execution failures in a row in a new session,
  the hint is shown at the third request and again at the fourth.
\<close>

theorem rephrase_hint_repeats_counterexample:
  "map hint_shown (fst (run_session (Inr (fixed_model ''SELECT * FROM Departments''))
      (failing_db ''no such table: Departments'')
      [''Show all departments'', ''Show all departments'', ''Show all departments'', ''Show all departments'']
      new_session)) = [False, False, True, True]"
  by code_simp

text \<open>
  C8, as the program has it. A request that fails in the guard or in the executor adds
  one to the counter; a failure in the executor shows the rephrase hint exactly when the
  counter has then reached three, so also at the fourth failure and later ones; a
  non-empty result sets the counter to zero.
\<close>

theorem failure_counter:
  assumes "str_strip nl_query \<noteq> []"
    and "main (Inr model) db nl_query True st = (out, st')"
  shows "(\<forall>e ms. generate_sql_query nl_query model (model_state st) = (Inl e, ms)
            \<longrightarrow> error_count st' = error_count st + 1)
       \<and> (\<forall>q ms cols msg ds. generate_sql_query nl_query model (model_state st) = (Inr q, ms)
            \<and> execute_sql_query db (db_state st) q = ((cols, Message msg), ds)
            \<longrightarrow> error_count st' = error_count st + 1 \<and> (hint_shown out \<longleftrightarrow> 3 \<le> error_count st'))
       \<and> (\<forall>q ms cols rows ds. generate_sql_query nl_query model (model_state st) = (Inr q, ms)
            \<and> execute_sql_query db (db_state st) q = ((cols, RowList rows), ds) \<and> rows \<noteq> []
            \<longrightarrow> error_count st' = 0)"
proof (intro conjI allI impI)
  fix e ms
  assume "generate_sql_query nl_query model (model_state st) = (Inl e, ms)"
  with assms show "error_count st' = error_count st + 1" by (auto simp: main_def)
next
  fix q ms cols msg ds
  assume a: "generate_sql_query nl_query model (model_state st) = (Inr q, ms)
            \<and> execute_sql_query db (db_state st) q = ((cols, Message msg), ds)"
  with assms have o: "out = [UiSubheader ''Generated SQL Query:'', UiCode q] @ [UiError msg] @
                         (if error_count st + 1 \<ge> 3 then [UiWarning rephrase_hint] else [])"
    and c: "error_count st' = error_count st + 1"
    by (auto simp: main_def)
  show "error_count st' = error_count st + 1" by (rule c)
  show "hint_shown out \<longleftrightarrow> 3 \<le> error_count st'"
    unfolding o c by (rule hint_shown_failure)
next
  fix q ms cols rows ds
  assume a: "generate_sql_query nl_query model (model_state st) = (Inr q, ms)
            \<and> execute_sql_query db (db_state st) q = ((cols, RowList rows), ds) \<and> rows \<noteq> []"
  then obtain cs where "cols = Some cs" using execute_returns_columns by fastforce
  with a assms show "error_count st' = 0" by (auto simp: main_def)
qed

theorem failure_counter_witness:
  "str_strip ''Show all departments'' \<noteq> []
   \<and> main (Inr (fixed_model ''SELECT * FROM Departments'')) (failing_db ''no such table: Departments'')
        ''Show all departments'' True \<lparr>error_count = 2, model_state = 0, db_state = []\<rparr>
      = ([UiSubheader ''Generated SQL Query:'', UiCode ''SELECT * FROM Departments;'',
          UiError ''Database error: Database table not found. Please ensure the database is properly set up.'',
          UiWarning rephrase_hint],
         \<lparr>error_count = 3, model_state = 1, db_state = [''SELECT * FROM Departments;'']\<rparr>)
   \<and> generate_sql_query ''Show all departments'' (fixed_model ''SELECT * FROM Departments'')
        0
      = (Inr ''SELECT * FROM Departments;'', 1)
   \<and> execute_sql_query (failing_db ''no such table: Departments'')
        [] ''SELECT * FROM Departments;''
      = ((None, Message ''Database error: Database table not found. Please ensure the database is properly set up.''),
         [''SELECT * FROM Departments;''])
   \<and> hint_shown ([UiSubheader ''Generated SQL Query:'', UiCode ''SELECT * FROM Departments;'',
          UiError ''Database error: Database table not found. Please ensure the database is properly set up.'',
          UiWarning rephrase_hint] :: string ui_event list)"
proof -
  let ?st = "\<lparr>error_count = 2, model_state = 0::nat, db_state = [] :: string list\<rparr>"
  let ?model = "fixed_model ''SELECT * FROM Departments''"
  let ?out = "[UiSubheader ''Generated SQL Query:'', UiCode ''SELECT * FROM Departments;'',
          UiError ''Database error: Database table not found. Please ensure the database is properly set up.'',
          UiWarning rephrase_hint] :: string ui_event list"
  let ?st' = "\<lparr>error_count = 3, model_state = 1::nat, db_state = [''SELECT * FROM Departments;'']\<rparr>"
  have a: "str_strip ''Show all departments'' \<noteq> []" by code_simp
  have b: "main (Inr ?model) (failing_db ''no such table: Departments'') ''Show all departments'' True ?st
             = (?out, ?st')" by code_simp
  have c: "generate_sql_query ''Show all departments'' ?model 0
             = (Inr ''SELECT * FROM Departments;'', 1)" by code_simp
  then have c': "generate_sql_query ''Show all departments'' ?model (model_state ?st)
             = (Inr ''SELECT * FROM Departments;'', 1)" by simp
  have d: "execute_sql_query (failing_db ''no such table: Departments'') []
             ''SELECT * FROM Departments;''
           = ((None, Message ''Database error: Database table not found. Please ensure the database is properly set up.''),
              [''SELECT * FROM Departments;''])" by code_simp
  then have d': "execute_sql_query (failing_db ''no such table: Departments'') (db_state ?st)
             ''SELECT * FROM Departments;''
           = ((None, Message ''Database error: Database table not found. Please ensure the database is properly set up.''),
              [''SELECT * FROM Departments;''])" by simp
  from failure_counter[OF a b] c' d'
  have "hint_shown ?out \<longleftrightarrow> 3 \<le> error_count ?st'" by blast
  then have h: "hint_shown ?out" by simp
  from a b c d h show ?thesis by (intro conjI)
qed

text \<open>
  C9 as stated does not hold. A message that contains both \<open>no such table\<close> and
  \<open>syntax error\<close> gets the "table not found" text, not the "syntax" text, and this
  classified text carries the prefix \<open>Database error: \<close> like any other.
\<close>

theorem executor_classification_counterexample:
  "execute_sql_query (failing_db ''no such table: syntax error'') [] ''SELECT * FROM t;''
     = ((None, Message ''Database error: Database table not found. Please ensure the database is properly set up.''),
        [''SELECT * FROM t;''])"
  by code_simp

text \<open>
  C9, as the program has it. When the database raises an \<open>sqlite3.Error\<close>, a message
  containing \<open>no such table\<close> (in any letter case) is replaced by the "table not found"
  text; otherwise a message containing \<open>syntax error\<close> is replaced by the "syntax" text;
  otherwise the message is kept. In all three cases the report is \<open>Database error: \<close>
  followed by that text, and the database has made exactly the one step.
\<close>

theorem executor_error_report:
  assumes "db ds query = (SqliteError e, ds')"
  shows "(\<forall>t. sublist t e \<and> str_lower t = ''no such table'' \<longrightarrow>
            execute_sql_query db ds query =
              ((None, Message (''Database error: '' @
                 ''Database table not found. Please ensure the database is properly set up.'')), ds'))
       \<and> (\<forall>t. \<not> sublist ''no such table'' (str_lower e) \<and> sublist t e \<and> str_lower t = ''syntax error'' \<longrightarrow>
            execute_sql_query db ds query =
              ((None, Message (''Database error: '' @
                 ''Invalid SQL query syntax. Please try rephrasing your question.'')), ds'))
       \<and> (\<not> sublist ''no such table'' (str_lower e) \<and> \<not> sublist ''syntax error'' (str_lower e) \<longrightarrow>
            execute_sql_query db ds query = ((None, Message (''Database error: '' @ e)), ds'))
       \<and> snd (execute_sql_query db ds query) = ds'"
proof (intro conjI allI impI)
  fix t
  assume "sublist t e \<and> str_lower t = ''no such table''"
  then have "sublist ''no such table'' (str_lower e)" using sublist_str_lower by metis
  with assms show "execute_sql_query db ds query =
              ((None, Message (''Database error: '' @
                 ''Database table not found. Please ensure the database is properly set up.'')), ds')"
    by (simp add: execute_sql_query_def)
next
  fix t
  assume a: "\<not> sublist ''no such table'' (str_lower e) \<and> sublist t e \<and> str_lower t = ''syntax error''"
  then have "sublist ''syntax error'' (str_lower e)" using sublist_str_lower by metis
  with a assms show "execute_sql_query db ds query =
              ((None, Message (''Database error: '' @
                 ''Invalid SQL query syntax. Please try rephrasing your question.'')), ds')"
    by (simp add: execute_sql_query_def)
next
  assume "\<not> sublist ''no such table'' (str_lower e) \<and> \<not> sublist ''syntax error'' (str_lower e)"
  with assms show "execute_sql_query db ds query = ((None, Message (''Database error: '' @ e)), ds')"
    by (simp add: execute_sql_query_def)
next
  from assms show "snd (execute_sql_query db ds query) = ds'"
    by (simp add: execute_sql_query_def Let_def)
qed

theorem executor_error_report_witness:
  "failing_db ''near FORM: Syntax Error'' [] ''SELECT * FORM Departments;''
     = (SqliteError ''near FORM: Syntax Error'', [''SELECT * FORM Departments;''])
   \<and> \<not> sublist ''no such table'' (str_lower ''near FORM: Syntax Error'')
   \<and> sublist ''Syntax Error'' ''near FORM: Syntax Error''
   \<and> str_lower ''Syntax Error'' = ''syntax error''
   \<and> execute_sql_query (failing_db ''near FORM: Syntax Error'') [] ''SELECT * FORM Departments;''
       = ((None, Message ''Database error: Invalid SQL query syntax. Please try rephrasing your question.''),
          [''SELECT * FORM Departments;''])"
proof -
  have a: "failing_db ''near FORM: Syntax Error'' [] ''SELECT * FORM Departments;''
     = (SqliteError ''near FORM: Syntax Error'', [''SELECT * FORM Departments;''])"
    by (simp add: failing_db_def)
  have b: "\<not> sublist ''no such table'' (str_lower ''near FORM: Syntax Error'')" by code_simp
  have c: "sublist ''Syntax Error'' ''near FORM: Syntax Error''" by code_simp
  have d: "str_lower ''Syntax Error'' = ''syntax error''" by code_simp
  from executor_error_report[where db = "failing_db ''near FORM: Syntax Error''" and ds = "[]"
      and query = "''SELECT * FORM Departments;''", OF a] b c d
  have "execute_sql_query (failing_db ''near FORM: Syntax Error'') [] ''SELECT * FORM Departments;''
       = ((None, Message (''Database error: '' @ ''Invalid SQL query syntax. Please try rephrasing your question.'')),
          [''SELECT * FORM Departments;''])" by blast
  with a b c d show ?thesis by simp
qed

end
